theory Spec2Isabelle
  imports Complex_Main "HOL-Library.AList" "HOL-Library.Sublist"
begin

section \<open>The similarity network script (src/main.py)\<close>

text \<open>
  The script is one top-to-bottom run: it vectorises the texts, builds a graph with one
  node per text and one edge per pair of texts whose similarity reaches the threshold,
  optionally narrows the graph to the neighbourhood of the texts containing a keyword,
  draws it, and lists the twenty most similar pairs. Every \<open>st.stop()\<close> of the script
  ends the run; the model returns the reason as a value.

  Scores are the entries of the matrix that \<open>cosine_similarity\<close> returns. The script only
  compares them with \<open>>=\<close> and sorts by them, so they are elements of a linear order
  \<open>'w\<close> (floating-point numbers without NaN are one). The matrix is a function from
  row and column to the entry; the script reads it at \<open>i < j < len(texts)\<close> only.
  A text is a \<open>string\<close>, one \<open>char\<close> per character of the Python \<open>str\<close>.
\<close>

subsection \<open>Outcomes of a halted run\<close>

text \<open>
  The four places where the script halts after the corpus is loaded, named as the
  specification names them: line 37 (\<open>fit_transform\<close> raised), line 52 (no nodes),
  line 55 (no edges), line 68 (the keyword matched no label).
\<close>

datatype stop = VectorizationError | EmptyCorpusError | NoEdgesError | NoMatchError

subsection \<open>The graph and the networkx operations the script calls\<close>

text \<open>
  \<open>nx.Graph\<close>: a dictionary from node to its \<open>label\<close> (in insertion order) and the
  undirected edges with their \<open>weight\<close>, each stored once as \<open>(u, v, weight)\<close>.
\<close>

record 'w graph =
  nodes :: "(nat \<times> string) list"
  edges :: "(nat \<times> nat \<times> 'w) list"

definition empty_graph :: "'w graph" where
  "empty_graph = \<lparr>nodes = [], edges = []\<rparr>"

text \<open>\<open>G.add_node(n, label=txt)\<close>: a new node is appended, a known node gets the label.\<close>

definition add_node :: "'w graph \<Rightarrow> nat \<Rightarrow> string \<Rightarrow> 'w graph" where
  "add_node G n txt = G\<lparr>nodes := AList.update n txt (nodes G)\<rparr>"

text \<open>An entry \<open>(a, b, w)\<close> is the undirected edge between \<open>u\<close> and \<open>v\<close>.\<close>

fun same_edge :: "nat \<Rightarrow> nat \<Rightarrow> nat \<times> nat \<times> 'w \<Rightarrow> bool" where
  "same_edge u v (a, b, w) = ((a = u \<and> b = v) \<or> (a = v \<and> b = u))"

fun set_weight :: "nat \<Rightarrow> nat \<Rightarrow> 'w \<Rightarrow> nat \<times> nat \<times> 'w \<Rightarrow> nat \<times> nat \<times> 'w" where
  "set_weight u v w (a, b, w') = (if same_edge u v (a, b, w') then (a, b, w) else (a, b, w'))"

text \<open>
  \<open>G.add_edge(u, v, weight=w)\<close>: a new edge is appended, an edge already present gets the
  weight. The script calls it on indices below \<open>len(texts)\<close>, which are nodes already, so
  the creation of missing end points by networkx does not occur.
\<close>

definition add_edge :: "'w graph \<Rightarrow> nat \<Rightarrow> nat \<Rightarrow> 'w \<Rightarrow> 'w graph" where
  "add_edge G u v w =
     (if list_ex (same_edge u v) (edges G)
      then G\<lparr>edges := map (set_weight u v w) (edges G)\<rparr>
      else G\<lparr>edges := edges G @ [(u, v, w)]\<rparr>)"

definition number_of_nodes :: "'w graph \<Rightarrow> nat" where
  "number_of_nodes G = length (nodes G)"

definition number_of_edges :: "'w graph \<Rightarrow> nat" where
  "number_of_edges G = length (edges G)"

definition has_edge :: "'w graph \<Rightarrow> nat \<Rightarrow> nat \<Rightarrow> bool" where
  "has_edge G u v = list_ex (same_edge u v) (edges G)"

text \<open>\<open>G[u][v]["weight"]\<close>, when the edge is there.\<close>

definition edge_weight :: "'w graph \<Rightarrow> nat \<Rightarrow> nat \<Rightarrow> 'w option" where
  "edge_weight G u v = map_option (\<lambda>e. snd (snd e)) (find (same_edge u v) (edges G))"

text \<open>\<open>G.neighbors(n)\<close>: the other end of every edge at \<open>n\<close>.\<close>

fun other_end :: "nat \<Rightarrow> nat \<times> nat \<times> 'w \<Rightarrow> nat list" where
  "other_end n (a, b, w) = (if a = n then [b] else if b = n then [a] else [])"

definition neighbors :: "'w graph \<Rightarrow> nat \<Rightarrow> nat list" where
  "neighbors G n = concat (map (other_end n) (edges G))"

text \<open>
  \<open>G.subgraph(S).copy()\<close>: the nodes of \<open>G\<close> that are in \<open>S\<close>, with their labels, and the
  edges of \<open>G\<close> with both ends in \<open>S\<close>, with their weights. The order in which networkx
  lists the nodes of the copy is not fixed (the parent's order or the order of \<open>S\<close>); the
  model keeps the parent's, and no statement below depends on it.
\<close>

fun node_in :: "nat set \<Rightarrow> nat \<times> string \<Rightarrow> bool" where
  "node_in S (n, txt) = (n \<in> S)"

fun edge_in :: "nat set \<Rightarrow> nat \<times> nat \<times> 'w \<Rightarrow> bool" where
  "edge_in S (a, b, w) = (a \<in> S \<and> b \<in> S)"

definition subgraph :: "'w graph \<Rightarrow> nat set \<Rightarrow> 'w graph" where
  "subgraph G S = \<lparr>nodes = filter (node_in S) (nodes G), edges = filter (edge_in S) (edges G)\<rparr>"

subsection \<open>Vectorisation (lines 32 to 38)\<close>

text \<open>
  \<open>TfidfVectorizer().fit_transform(texts)\<close> splits every text into tokens with the
  vectoriser's analyzer and raises \<open>ValueError\<close> (empty vocabulary) when no text yields a
  token; the script catches the exception, reports it and stops. The analyzer is a
  parameter. The matrix of weights is floating-point arithmetic of the library: the
  similarity matrix computed from it is a parameter of the run. What the specification
  says about it is modelled separately below, in exact arithmetic.
\<close>

definition vocabulary :: "(string \<Rightarrow> string list) \<Rightarrow> string list \<Rightarrow> string list" where
  "vocabulary analyzer texts = remdups (concat (map analyzer texts))"

definition fit_transform_raises :: "(string \<Rightarrow> string list) \<Rightarrow> string list \<Rightarrow> bool" where
  "fit_transform_raises analyzer texts = (vocabulary analyzer texts = [])"

subsection \<open>Graph construction (lines 42 to 49)\<close>

text \<open>\<open>for i, txt in enumerate(texts): G.add_node(i, label=txt)\<close>\<close>

definition add_nodes :: "string list \<Rightarrow> 'w graph \<Rightarrow> 'w graph" where
  "add_nodes texts G = fold (\<lambda>(i, txt) G. add_node G i txt) (enumerate 0 texts) G"

text \<open>
  \<open>for j in range(i + 1, len(texts)): if similarity_matrix[i][j] >= threshold:
  G.add_edge(i, j, weight=float(similarity_matrix[i][j]))\<close>
\<close>

definition add_edges_row :: "nat \<Rightarrow> (nat \<Rightarrow> nat \<Rightarrow> 'w::linorder) \<Rightarrow> 'w \<Rightarrow> nat \<Rightarrow> 'w graph \<Rightarrow> 'w graph" where
  "add_edges_row n sim threshold i G =
     fold (\<lambda>j G. if sim i j \<ge> threshold then add_edge G i j (sim i j) else G) [Suc i..<n] G"

text \<open>\<open>for i in range(len(texts)): ...\<close>\<close>

definition add_edges :: "nat \<Rightarrow> (nat \<Rightarrow> nat \<Rightarrow> 'w::linorder) \<Rightarrow> 'w \<Rightarrow> 'w graph \<Rightarrow> 'w graph" where
  "add_edges n sim threshold G = fold (add_edges_row n sim threshold) [0..<n] G"

definition build_graph :: "string list \<Rightarrow> (nat \<Rightarrow> nat \<Rightarrow> 'w::linorder) \<Rightarrow> 'w \<Rightarrow> 'w graph" where
  "build_graph texts sim threshold =
     add_edges (length texts) sim threshold (add_nodes texts empty_graph)"

subsection \<open>Keyword filter (lines 58 to 69)\<close>

text \<open>\<open>search_keyword in label\<close>: the keyword occurs in the label as a contiguous piece.\<close>

fun contains :: "string \<Rightarrow> string \<Rightarrow> bool" where
  "contains kw [] = (kw = [])"
| "contains kw (c # cs) = (prefix kw (c # cs) \<or> contains kw cs)"

fun label_matches :: "string \<Rightarrow> nat \<times> string \<Rightarrow> bool" where
  "label_matches kw (n, txt) = contains kw txt"

text \<open>\<open>[n for n, d in G.nodes(data=True) if search_keyword in d["label"]]\<close>\<close>

definition matched_nodes :: "'w graph \<Rightarrow> string \<Rightarrow> nat list" where
  "matched_nodes G kw = map fst (filter (label_matches kw) (nodes G))"

text \<open>
  \<open>sub_nodes = set(); for node in matched_nodes: sub_nodes.add(node);
  sub_nodes.update(G.neighbors(node))\<close>
\<close>

definition sub_nodes :: "'w graph \<Rightarrow> nat list \<Rightarrow> nat set" where
  "sub_nodes G matched = fold (\<lambda>node S. insert node S \<union> set (neighbors G node)) matched {}"

text \<open>
  The whole step. The keyword is the text of the input box after \<open>strip()\<close>; an empty
  keyword leaves the graph as it is.
\<close>

definition keyword_filter :: "'w graph \<Rightarrow> string \<Rightarrow> stop + 'w graph" where
  "keyword_filter G search_keyword =
     (if search_keyword = [] then Inr G
      else if matched_nodes G search_keyword = [] then Inl NoMatchError
      else Inr (subgraph G (sub_nodes G (matched_nodes G search_keyword))))"

subsection \<open>Ranked pairs (lines 116 to 137)\<close>

definition top_n :: nat where
  "top_n = 20"

text \<open>
  \<open>for j in range(i + 1, len(texts)): score = similarity_matrix[i][j];
  if score >= threshold: pairs.append((i, j, score))\<close>
\<close>

definition pairs_row :: "nat \<Rightarrow> (nat \<Rightarrow> nat \<Rightarrow> 'w::linorder) \<Rightarrow> 'w \<Rightarrow> nat \<Rightarrow> (nat \<times> nat \<times> 'w) list \<Rightarrow> (nat \<times> nat \<times> 'w) list" where
  "pairs_row n sim threshold i ps =
     fold (\<lambda>j ps. if sim i j \<ge> threshold then ps @ [(i, j, sim i j)] else ps) [Suc i..<n] ps"

definition pairs :: "string list \<Rightarrow> (nat \<Rightarrow> nat \<Rightarrow> 'w::linorder) \<Rightarrow> 'w \<Rightarrow> (nat \<times> nat \<times> 'w) list" where
  "pairs texts sim threshold =
     fold (pairs_row (length texts) sim threshold) [0..<length texts] []"

text \<open>
  \<open>sorted(xs, key=key, reverse=True)\<close>: Python reverses the list, sorts it stably by
  ascending key and reverses the result, so equal keys keep their order.
\<close>

definition sorted_reverse :: "('a \<Rightarrow> 'k::linorder) \<Rightarrow> 'a list \<Rightarrow> 'a list" where
  "sorted_reverse key xs = rev (sort_key key (rev xs))"

definition score :: "nat \<times> nat \<times> 'w \<Rightarrow> 'w" where
  "score x = snd (snd x)"

text \<open>\<open>top_pairs = sorted(pairs, key=lambda x: x[2], reverse=True)[:top_n]\<close>\<close>

definition top_pairs :: "string list \<Rightarrow> (nat \<Rightarrow> nat \<Rightarrow> 'w::linorder) \<Rightarrow> 'w \<Rightarrow> (nat \<times> nat \<times> 'w) list" where
  "top_pairs texts sim threshold = take top_n (sorted_reverse score (pairs texts sim threshold))"

text \<open>
  The rows of \<open>top_df\<close>: \<open>texts[i]\<close>, \<open>texts[j]\<close> and \<open>round(score, 3)\<close>. The rounding
  function is the parameter \<open>round3\<close>; \<open>round3_half_even\<close> below is the one the script
  uses.
\<close>

fun table_row :: "string list \<Rightarrow> ('w \<Rightarrow> 'r) \<Rightarrow> nat \<times> nat \<times> 'w \<Rightarrow> string \<times> string \<times> 'r" where
  "table_row texts round3 (i, j, s) = (texts ! i, texts ! j, round3 s)"

definition top_df :: "string list \<Rightarrow> (nat \<Rightarrow> nat \<Rightarrow> 'w::linorder) \<Rightarrow> ('w \<Rightarrow> 'r) \<Rightarrow> 'w \<Rightarrow> (string \<times> string \<times> 'r) list" where
  "top_df texts sim round3 threshold = map (table_row texts round3) (top_pairs texts sim threshold)"

subsection \<open>The run\<close>

text \<open>
  Lines 42 to 137: from the similarity matrix to the displayed graph and the table. The
  layout and the drawing of the graph are outside the model.
\<close>

definition graph_stage ::
  "(nat \<Rightarrow> nat \<Rightarrow> 'w::linorder) \<Rightarrow> ('w \<Rightarrow> 'r) \<Rightarrow> string list \<Rightarrow> 'w \<Rightarrow> string
     \<Rightarrow> stop + ('w graph \<times> (string \<times> string \<times> 'r) list)" where
  "graph_stage sim round3 texts threshold search_keyword =
     (let G = build_graph texts sim threshold in
      if number_of_nodes G = 0 then Inl EmptyCorpusError
      else if number_of_edges G = 0 then Inl NoEdgesError
      else case keyword_filter G search_keyword of
             Inl e \<Rightarrow> Inl e
           | Inr G' \<Rightarrow> Inr (G', top_df texts sim round3 threshold))"

text \<open>Lines 30 to 137: the run from the texts on.\<close>

definition run ::
  "(string \<Rightarrow> string list) \<Rightarrow> (nat \<Rightarrow> nat \<Rightarrow> 'w::linorder) \<Rightarrow> ('w \<Rightarrow> 'r) \<Rightarrow> string list \<Rightarrow> 'w \<Rightarrow> string
     \<Rightarrow> stop + ('w graph \<times> (string \<times> string \<times> 'r) list)" where
  "run analyzer sim round3 texts threshold search_keyword =
     (if fit_transform_raises analyzer texts then Inl VectorizationError
      else graph_stage sim round3 texts threshold search_keyword)"

subsection \<open>The qualifying pairs, row by row\<close>

text \<open>
  Both double loops of the script (lines 46 to 49 and lines 119 to 123) walk the pairs
  \<open>i < j < len(texts)\<close> row by row and keep those whose similarity reaches the threshold.
  \<open>all_pairs\<close> is that list, written without a loop; the lemmas below show that both loops
  compute it.
\<close>

definition row_pairs :: "nat \<Rightarrow> (nat \<Rightarrow> nat \<Rightarrow> 'w::linorder) \<Rightarrow> 'w \<Rightarrow> nat \<Rightarrow> (nat \<times> nat \<times> 'w) list" where
  "row_pairs n sim threshold i =
     map (\<lambda>j. (i, j, sim i j)) (filter (\<lambda>j. threshold \<le> sim i j) [Suc i..<n])"

definition all_pairs :: "nat \<Rightarrow> (nat \<Rightarrow> nat \<Rightarrow> 'w::linorder) \<Rightarrow> 'w \<Rightarrow> (nat \<times> nat \<times> 'w) list" where
  "all_pairs n sim threshold = concat (map (row_pairs n sim threshold) [0..<n])"

subsection \<open>Rounding the displayed score\<close>

text \<open>
  \<open>round(score, 3)\<close> on a numpy float: the score is multiplied by 1000, rounded to the
  nearest integer with halves going to the even one, and divided by 1000. The model does
  this in exact arithmetic; the library's floating-point product can differ from the exact
  one in the last binary place.
\<close>

definition round_half_even :: "real \<Rightarrow> int" where
  "round_half_even x =
     (let f = \<lfloor>x\<rfloor>; d = x - of_int f
      in if d < 1 / 2 then f else if 1 / 2 < d then f + 1 else if even f then f else f + 1)"

definition round3_half_even :: "real \<Rightarrow> real" where
  "round3_half_even s = of_int (round_half_even (s * 1000)) / 1000"

subsection \<open>The vectoriser and the similarity engine\<close>

text \<open>
  Modelled from the spec: the number of documents that contain a term (section 4.1). The
  script calls scikit-learn's \<open>TfidfVectorizer\<close> and \<open>cosine_similarity\<close> for this part;
  their code is not in the repository. A document is the list of its tokens.
\<close>

definition doc_freq :: "string list list \<Rightarrow> string \<Rightarrow> nat" where
  "doc_freq docs t = length (filter (\<lambda>d. t \<in> set d) docs)"

text \<open>
  Modelled from the spec: the smoothed inverse document frequency of section 4.1,
  \<open>idf(t) = ln((1+N)/(1+df(t))) + 1\<close>.
\<close>

definition idf :: "nat \<Rightarrow> nat \<Rightarrow> real" where
  "idf N df = ln ((1 + real N) / (1 + real df)) + 1"

text \<open>
  Modelled from the spec: the row of a document before normalisation (section 4.1), term
  frequency times inverse document frequency for every term of the vocabulary.
\<close>

definition tfidf_row :: "string list list \<Rightarrow> string list \<Rightarrow> string list \<Rightarrow> real list" where
  "tfidf_row docs vocab d =
     map (\<lambda>t. real (count_list d t) * idf (length docs) (doc_freq docs t)) vocab"

text \<open>
  Modelled from the spec: per-row L2 normalisation (section 4.1). A row of norm zero is
  left as it is.
\<close>

definition l2_normalize :: "real list \<Rightarrow> real list" where
  "l2_normalize v =
     (let n = sqrt (sum_list (map (\<lambda>x. x * x) v))
      in if n = 0 then v else map (\<lambda>x. x / n) v)"

text \<open>Modelled from the spec: the feature matrix of section 4.1, one normalised row per text.\<close>

definition feature_matrix :: "(string \<Rightarrow> string list) \<Rightarrow> string list \<Rightarrow> real list list" where
  "feature_matrix analyzer texts =
     (let docs = map analyzer texts
      in map (\<lambda>d. l2_normalize (tfidf_row docs (vocabulary analyzer texts) d)) docs)"

text \<open>Modelled from the spec: the dot product of two rows (section 4.2).\<close>

definition dot :: "real list \<Rightarrow> real list \<Rightarrow> real" where
  "dot u v = sum_list (map (\<lambda>(x, y). x * y) (zip u v))"

text \<open>
  Modelled from the spec: the similarity matrix of section 4.2, entry \<open>(i, j)\<close> is the dot
  product of row \<open>i\<close> and row \<open>j\<close> of the feature matrix. Exact real arithmetic.
\<close>

definition similarity_matrix :: "(string \<Rightarrow> string list) \<Rightarrow> string list \<Rightarrow> nat \<Rightarrow> nat \<Rightarrow> real" where
  "similarity_matrix analyzer texts i j =
     dot (feature_matrix analyzer texts ! i) (feature_matrix analyzer texts ! j)"

subsection \<open>An example corpus\<close>

text \<open>
  The three texts of the specification's first scenario. \<open>example_sim\<close> holds the entries
  that lines 35 to 40 compute for them, to four decimals: texts 0 and 1 share the word
  \<open>battery\<close> (\<open>0.2243\<close>), text 2 shares no word with the others (\<open>0\<close>). The diagonal is
  not read by the script.
\<close>

definition example_texts :: "string list" where
  "example_texts = [''solar cell battery'', ''battery storage system'', ''unrelated robotics topic'']"

definition example_sim :: "nat \<Rightarrow> nat \<Rightarrow> real" where
  "example_sim i j = (if i = j then 1 else if i + j = 1 then 2243 / 10000 else 0)"

text \<open>
  An analyzer for the examples: the words between spaces that have at least two
  characters, which is what the vectoriser's default analyzer yields on lower-case words
  separated by single spaces.
\<close>

fun split_words :: "string \<Rightarrow> string \<Rightarrow> string list" where
  "split_words w [] = [rev w]"
| "split_words w (c # cs) =
     (if c = CHR '' '' then rev w # split_words [] cs else split_words (c # w) cs)"

definition example_analyzer :: "string \<Rightarrow> string list" where
  "example_analyzer s = filter (\<lambda>w. 2 \<le> length w) (split_words [] s)"



subsection \<open>What a run displays\<close>

text \<open>The ranked table of a run, when the run reaches it.\<close>

fun displayed_table :: "stop + ('g \<times> 't) \<Rightarrow> 't option" where
  "displayed_table (Inl e) = None"
| "displayed_table (Inr (G, T)) = Some T"

text \<open>The graph a run draws, when the run reaches the drawing.\<close>

fun displayed_graph :: "stop + ('g \<times> 't) \<Rightarrow> 'g option" where
  "displayed_graph (Inl e) = None"
| "displayed_graph (Inr (G, T)) = Some G"

section \<open>What the loops compute\<close>

lemma update_fresh: "k \<notin> fst ` set al \<Longrightarrow> AList.update k v al = al @ [(k, v)]"
  by (induction al) auto

lemma fold_add_node:
  "distinct (map fst xs) \<Longrightarrow> fst ` set xs \<inter> fst ` set (nodes G) = {} \<Longrightarrow>
   fold (\<lambda>(i, txt) G. add_node G i txt) xs G = G\<lparr>nodes := nodes G @ xs\<rparr>"
proof (induction xs arbitrary: G)
  case Nil
  then show ?case by simp
next
  case (Cons x xs)
  obtain i t where x: "x = (i, t)" by (cases x)
  from Cons.prems have fresh: "i \<notin> fst ` set (nodes G)" by (auto simp: x)
  have step: "add_node G i t = G\<lparr>nodes := nodes G @ [(i, t)]\<rparr>"
    by (simp add: add_node_def update_fresh [OF fresh])
  from Cons.prems have "distinct (map fst xs)"
    and "fst ` set xs \<inter> fst ` set (nodes (add_node G i t)) = {}"
    by (auto simp: x step)
  from Cons.IH [OF this] show ?case by (simp add: x step)
qed

lemma add_nodes_empty: "add_nodes texts empty_graph = \<lparr>nodes = enumerate 0 texts, edges = []\<rparr>"
proof -
  have "distinct (map fst (enumerate 0 texts))" by simp
  then show ?thesis
    unfolding add_nodes_def by (subst fold_add_node) (simp_all add: empty_graph_def)
qed

lemma add_edge_fresh:
  "\<not> list_ex (same_edge u v) (edges G) \<Longrightarrow> add_edge G u v w = G\<lparr>edges := edges G @ [(u, v, w)]\<rparr>"
  by (simp add: add_edge_def)

lemma add_edges_row_fold:
  fixes sim :: "nat \<Rightarrow> nat \<Rightarrow> 'w::linorder"
  assumes "\<And>a b w. (a, b, w) \<in> set (edges G) \<Longrightarrow> a < i \<or> (a = i \<and> b \<notin> set js)"
    and "distinct js" and "\<And>j. j \<in> set js \<Longrightarrow> i < j"
  shows "fold (\<lambda>j G. if sim i j \<ge> threshold then add_edge G i j (sim i j) else G) js G =
         G\<lparr>edges := edges G @ map (\<lambda>j. (i, j, sim i j)) (filter (\<lambda>j. threshold \<le> sim i j) js)\<rparr>"
  using assms
proof (induction js arbitrary: G)
  case Nil
  then show ?case by simp
next
  case (Cons j js)
  show ?case
  proof (cases "threshold \<le> sim i j")
    case False
    have "fold (\<lambda>j G. if sim i j \<ge> threshold then add_edge G i j (sim i j) else G) js G =
         G\<lparr>edges := edges G @ map (\<lambda>j. (i, j, sim i j)) (filter (\<lambda>j. threshold \<le> sim i j) js)\<rparr>"
      using Cons.prems by (intro Cons.IH) auto
    with False show ?thesis by simp
  next
    case True
    have ij: "i < j" using Cons.prems(3) by simp
    have "\<not> list_ex (same_edge i j) (edges G)"
      using Cons.prems(1) ij by (fastforce simp: list_ex_iff)
    then have step: "add_edge G i j (sim i j) = G\<lparr>edges := edges G @ [(i, j, sim i j)]\<rparr>"
      by (rule add_edge_fresh)
    let ?G = "add_edge G i j (sim i j)"
    have "fold (\<lambda>j G. if sim i j \<ge> threshold then add_edge G i j (sim i j) else G) js ?G =
         ?G\<lparr>edges := edges ?G @ map (\<lambda>j. (i, j, sim i j)) (filter (\<lambda>j. threshold \<le> sim i j) js)\<rparr>"
      using Cons.prems by (intro Cons.IH) (auto simp: step)
    with True show ?thesis by (simp add: step)
  qed
qed

lemma fst_row_pairs: "(a, b, w) \<in> set (row_pairs n sim threshold i) \<Longrightarrow> a = i"
  by (auto simp: row_pairs_def)

lemma add_edges_row_eq:
  fixes sim :: "nat \<Rightarrow> nat \<Rightarrow> 'w::linorder"
  assumes "\<And>a b w. (a, b, w) \<in> set (edges G) \<Longrightarrow> a < i"
  shows "add_edges_row n sim threshold i G = G\<lparr>edges := edges G @ row_pairs n sim threshold i\<rparr>"
  unfolding add_edges_row_def row_pairs_def
  using assms by (intro add_edges_row_fold) auto

lemma add_edges_upto:
  fixes sim :: "nat \<Rightarrow> nat \<Rightarrow> 'w::linorder"
  assumes "edges G = []"
  shows "fold (add_edges_row n sim threshold) [0..<m] G =
         G\<lparr>edges := concat (map (row_pairs n sim threshold) [0..<m])\<rparr>"
proof (induction m)
  case 0
  then show ?case using assms by simp
next
  case (Suc m)
  let ?G = "G\<lparr>edges := concat (map (row_pairs n sim threshold) [0..<m])\<rparr>"
  have "\<And>a b w. (a, b, w) \<in> set (edges ?G) \<Longrightarrow> a < m"
    by (auto dest: fst_row_pairs)
  from add_edges_row_eq [of ?G m n sim threshold, OF this] Suc show ?case
    by simp
qed

lemma build_graph_eq:
  "build_graph texts sim threshold =
     \<lparr>nodes = enumerate 0 texts, edges = all_pairs (length texts) sim threshold\<rparr>"
  by (simp add: build_graph_def add_edges_def add_nodes_empty add_edges_upto all_pairs_def)

lemma fold_append_if:
  "fold (\<lambda>j ps. if P j then ps @ [f j] else ps) js ps = ps @ map f (filter P js)"
  by (induction js arbitrary: ps) auto

lemma fold_append_rows: "fold (\<lambda>i ps. ps @ g i) is ps = ps @ concat (map g is)"
  by (induction "is" arbitrary: ps) auto

lemma pairs_row_eq: "pairs_row n sim threshold i ps = ps @ row_pairs n sim threshold i"
  unfolding pairs_row_def row_pairs_def by (rule fold_append_if)

lemma pairs_eq: "pairs texts sim threshold = all_pairs (length texts) sim threshold"
proof -
  have "pairs_row (length texts) sim threshold = (\<lambda>i ps. ps @ row_pairs (length texts) sim threshold i)"
    by (intro ext) (rule pairs_row_eq)
  then show ?thesis by (simp add: pairs_def all_pairs_def fold_append_rows)
qed

lemma set_row_pairs:
  "(a, b, w) \<in> set (row_pairs n sim threshold i) \<longleftrightarrow>
     a = i \<and> i < b \<and> b < n \<and> threshold \<le> sim i b \<and> w = sim i b"
  by (auto simp: row_pairs_def)

lemma set_all_pairs:
  "(a, b, w) \<in> set (all_pairs n sim threshold) \<longleftrightarrow>
     a < b \<and> b < n \<and> threshold \<le> sim a b \<and> w = sim a b"
proof
  assume "(a, b, w) \<in> set (all_pairs n sim threshold)"
  then obtain i where "i < n" "(a, b, w) \<in> set (row_pairs n sim threshold i)"
    by (auto simp: all_pairs_def)
  then show "a < b \<and> b < n \<and> threshold \<le> sim a b \<and> w = sim a b"
    by (simp add: set_row_pairs)
next
  assume r: "a < b \<and> b < n \<and> threshold \<le> sim a b \<and> w = sim a b"
  then have "(a, b, w) \<in> set (row_pairs n sim threshold a)" and "a < n"
    by (simp_all add: set_row_pairs)
  then show "(a, b, w) \<in> set (all_pairs n sim threshold)"
    unfolding all_pairs_def by (simp del: upt_Suc) (metis atLeast0LessThan lessThan_iff)
qed

lemma has_edge_iff:
  "has_edge G u v \<longleftrightarrow> (\<exists>w. (u, v, w) \<in> set (edges G) \<or> (v, u, w) \<in> set (edges G))"
proof
  assume "has_edge G u v"
  then obtain e where e: "e \<in> set (edges G)" "same_edge u v e"
    by (auto simp: has_edge_def list_ex_iff)
  obtain a b w where "e = (a, b, w)" by (cases e)
  with e show "\<exists>w. (u, v, w) \<in> set (edges G) \<or> (v, u, w) \<in> set (edges G)"
    by auto
next
  assume "\<exists>w. (u, v, w) \<in> set (edges G) \<or> (v, u, w) \<in> set (edges G)"
  then obtain w where "(u, v, w) \<in> set (edges G) \<or> (v, u, w) \<in> set (edges G)" ..
  then show "has_edge G u v"
  proof
    assume "(u, v, w) \<in> set (edges G)"
    moreover have "same_edge u v (u, v, w)" by simp
    ultimately show ?thesis unfolding has_edge_def list_ex_iff by blast
  next
    assume "(v, u, w) \<in> set (edges G)"
    moreover have "same_edge u v (v, u, w)" by simp
    ultimately show ?thesis unfolding has_edge_def list_ex_iff by blast
  qed
qed

lemma has_edge_build_graph:
  "has_edge (build_graph texts sim threshold) u v \<longleftrightarrow>
     (u < v \<and> v < length texts \<and> threshold \<le> sim u v) \<or>
     (v < u \<and> u < length texts \<and> threshold \<le> sim v u)"
  by (auto simp: has_edge_iff build_graph_eq set_all_pairs)

lemma find_same_edge_all_pairs:
  assumes "find (same_edge u v) (all_pairs n sim threshold) = Some e"
  shows "(u < v \<and> e = (u, v, sim u v)) \<or> (v < u \<and> e = (v, u, sim v u))"
proof -
  obtain a b w where e: "e = (a, b, w)" by (cases e)
  from assms have "same_edge u v e" and "e \<in> set (all_pairs n sim threshold)"
    by (auto simp: find_Some_iff)
  then show ?thesis by (auto simp: e set_all_pairs)
qed

lemma edge_weight_build_graph:
  assumes "has_edge (build_graph texts sim threshold) u v" and "u < v"
  shows "edge_weight (build_graph texts sim threshold) u v = Some (sim u v)"
    and "edge_weight (build_graph texts sim threshold) v u = Some (sim u v)"
proof -
  let ?es = "all_pairs (length texts) sim threshold"
  from assms have ex: "list_ex (same_edge u v) ?es" by (simp add: has_edge_def build_graph_eq)
  have "find (same_edge u v) ?es \<noteq> None"
    using ex unfolding find_None_iff list_ex_iff by blast
  then obtain e where e: "find (same_edge u v) ?es = Some e" by blast
  from find_same_edge_all_pairs [OF e] assms(2) have "e = (u, v, sim u v)" by auto
  with e show "edge_weight (build_graph texts sim threshold) u v = Some (sim u v)"
    by (simp add: edge_weight_def build_graph_eq)
  have "same_edge v u = (same_edge u v :: nat \<times> nat \<times> 'a \<Rightarrow> bool)" by (auto simp: fun_eq_iff)
  with e \<open>e = (u, v, sim u v)\<close> show "edge_weight (build_graph texts sim threshold) v u = Some (sim u v)"
    by (simp add: edge_weight_def build_graph_eq)
qed

section \<open>Graph builder\<close>

text \<open>
  Claim C1. For every corpus of \<open>N\<close> texts, every similarity matrix and every threshold,
  the built graph has exactly one node for each index \<open>0..N-1\<close>, labelled with its text,
  whether or not the node has an edge. For \<open>i < j\<close> the graph has the undirected edge
  between \<open>i\<close> and \<open>j\<close> if and only if \<open>j < N\<close> and \<open>sim i j\<close> reaches the
  threshold; the weight of that edge, read from either end, is \<open>sim i j\<close>; and no node has
  an edge to itself.
\<close>

theorem build_graph_nodes_and_edges:
  assumes "G = build_graph texts sim threshold"
  shows "map fst (nodes G) = [0..<length texts] \<and> map snd (nodes G) = texts
    \<and> (\<forall>i j. i < j \<longrightarrow> (has_edge G i j \<longleftrightarrow> j < length texts \<and> threshold \<le> sim i j))
    \<and> (\<forall>i j. i < j \<and> has_edge G i j \<longrightarrow>
          edge_weight G i j = Some (sim i j) \<and> edge_weight G j i = Some (sim i j))
    \<and> (\<forall>u v. has_edge G u v \<longleftrightarrow> has_edge G v u)
    \<and> (\<forall>u. \<not> has_edge G u u)"
proof (intro conjI allI impI)
  show "map fst (nodes G) = [0..<length texts]" "map snd (nodes G) = texts"
    by (simp_all add: assms build_graph_eq)
next
  fix i j :: nat assume "i < j"
  then show "has_edge G i j \<longleftrightarrow> j < length texts \<and> threshold \<le> sim i j"
    by (auto simp: assms has_edge_build_graph)
next
  fix i j assume "i < j \<and> has_edge G i j"
  then show "edge_weight G i j = Some (sim i j)" "edge_weight G j i = Some (sim i j)"
    using edge_weight_build_graph [of texts sim threshold i j] by (simp_all add: assms)
next
  fix u v show "has_edge G u v \<longleftrightarrow> has_edge G v u"
    by (auto simp: assms has_edge_build_graph)
next
  fix u show "\<not> has_edge G u u" by (simp add: assms has_edge_build_graph)
qed

theorem build_graph_nodes_and_edges_witness:
  "map fst (nodes (build_graph [''aa bb'', ''aa cc'', ''zz''] (\<lambda>i j. if i + j = 1 then 1 / 2 else 0) (3 / 10 :: real))) = [0, 1, 2]
   \<and> has_edge (build_graph [''aa bb'', ''aa cc'', ''zz''] (\<lambda>i j. if i + j = 1 then 1 / 2 else 0) (3 / 10 :: real)) 0 1
   \<and> \<not> has_edge (build_graph [''aa bb'', ''aa cc'', ''zz''] (\<lambda>i j. if i + j = 1 then 1 / 2 else 0) (3 / 10 :: real)) 0 2
   \<and> edge_weight (build_graph [''aa bb'', ''aa cc'', ''zz''] (\<lambda>i j. if i + j = 1 then 1 / 2 else 0) (3 / 10 :: real)) 1 0 = Some (1 / 2)"
proof -
  let ?G = "build_graph [''aa bb'', ''aa cc'', ''zz''] (\<lambda>i j. if i + j = 1 then 1 / 2 else 0) (3 / 10 :: real)"
  note t = build_graph_nodes_and_edges [of ?G, OF refl]
  from t have n: "map fst (nodes ?G) = [0..<length [''aa bb'', ''aa cc'', ''zz'']]" by blast
  from t have e: "has_edge ?G i j \<longleftrightarrow>
      j < length [''aa bb'', ''aa cc'', ''zz''] \<and> (3 / 10 :: real) \<le> (if i + j = 1 then 1 / 2 else 0)"
    if "i < j" for i j using that by blast
  from t have w: "edge_weight ?G j i = Some (if i + j = 1 then 1 / 2 else 0)"
    if "i < j" "has_edge ?G i j" for i j using that by blast
  have e01: "has_edge ?G 0 1" using e [of 0 1] by simp
  have e02: "\<not> has_edge ?G 0 2" using e [of 0 2] by simp
  have "edge_weight ?G 1 0 = Some (1 / 2)" using w [of 0 1] e01 by simp
  with n e01 e02 show ?thesis by (simp add: upt_rec)
qed

text \<open>
  Claim C2. For thresholds \<open>t1 < t2\<close> on the same corpus and similarity matrix, every edge
  of the graph built at \<open>t2\<close> is an edge of the graph built at \<open>t1\<close>, with the same
  weight: raising the threshold only removes edges.
\<close>

theorem threshold_monotone:
  fixes sim :: "nat \<Rightarrow> nat \<Rightarrow> 'w::linorder"
  assumes "t1 < t2"
  shows "set (edges (build_graph texts sim t2)) \<subseteq> set (edges (build_graph texts sim t1))
    \<and> (\<forall>u v. has_edge (build_graph texts sim t2) u v \<longrightarrow> has_edge (build_graph texts sim t1) u v)"
proof (intro conjI allI impI subsetI)
  fix e assume e: "e \<in> set (edges (build_graph texts sim t2))"
  obtain a b w where "e = (a, b, w)" by (cases e)
  with e assms show "e \<in> set (edges (build_graph texts sim t1))"
    by (auto simp: build_graph_eq set_all_pairs)
next
  fix u v assume "has_edge (build_graph texts sim t2) u v"
  then show "has_edge (build_graph texts sim t1) u v"
    using assms by (auto simp: has_edge_build_graph)
qed


theorem threshold_monotone_witness:
  "(3 / 10 :: real) < 7 / 10
   \<and> set (edges (build_graph [''a'', ''b'', ''c''] (\<lambda>i j. if i + j = 1 then 4 / 5 else 1 / 2) (7 / 10 :: real)))
      \<subseteq> set (edges (build_graph [''a'', ''b'', ''c''] (\<lambda>i j. if i + j = 1 then 4 / 5 else 1 / 2) (3 / 10 :: real)))"
proof -
  have h: "(3 / 10 :: real) < 7 / 10" by simp
  from threshold_monotone [OF h] show ?thesis using h by blast
qed

section \<open>Keyword filter\<close>

lemma set_neighbors: "v \<in> set (neighbors G n) \<longleftrightarrow> has_edge G n v"
proof -
  have "v \<in> set (other_end n e) \<longleftrightarrow> same_edge n v e" for e :: "nat \<times> nat \<times> 'a"
    by (cases e) auto
  then show ?thesis by (simp add: neighbors_def has_edge_def list_ex_iff)
qed

lemma fold_sub_nodes:
  "fold (\<lambda>node S. insert node S \<union> set (neighbors G node)) ms S =
     S \<union> set ms \<union> (\<Union>m\<in>set ms. set (neighbors G m))"
  by (induction ms arbitrary: S) auto

lemma sub_nodes_eq: "sub_nodes G ms = set ms \<union> {v. \<exists>m\<in>set ms. has_edge G m v}"
  unfolding sub_nodes_def fold_sub_nodes by (auto simp: set_neighbors)

lemma filter_filter_absorb:
  "(\<And>x. x \<in> set xs \<Longrightarrow> P x \<Longrightarrow> Q x) \<Longrightarrow> filter P (filter Q xs) = filter P xs"
  by (induction xs) auto

lemma find_filter_absorb:
  "(\<And>x. x \<in> set xs \<Longrightarrow> P x \<Longrightarrow> Q x) \<Longrightarrow> find P (filter Q xs) = find P xs"
  by (induction xs) auto

lemma concat_map_filter_absorb:
  "(\<And>x. x \<in> set xs \<Longrightarrow> \<not> Q x \<Longrightarrow> f x = []) \<Longrightarrow> concat (map f (filter Q xs)) = concat (map f xs)"
  by (induction xs) auto

lemma set_matched_nodes:
  "n \<in> set (matched_nodes G kw) \<longleftrightarrow> (\<exists>t. (n, t) \<in> set (nodes G) \<and> contains kw t)"
proof -
  have "label_matches kw x \<longleftrightarrow> contains kw (snd x)" for x :: "nat \<times> string"
    by (cases x) simp
  then show ?thesis by (auto simp: matched_nodes_def image_iff)
qed

lemma matched_nodes_subgraph:
  assumes "set (matched_nodes G kw) \<subseteq> S"
  shows "matched_nodes (subgraph G S) kw = matched_nodes G kw"
proof -
  have "node_in S x" if "x \<in> set (nodes G)" "label_matches kw x" for x
  proof -
    obtain n t where x: "x = (n, t)" by (cases x)
    with that have "n \<in> set (matched_nodes G kw)" by (auto simp: set_matched_nodes)
    with assms show ?thesis by (auto simp: x)
  qed
  then have "filter (label_matches kw) (filter (node_in S) (nodes G)) = filter (label_matches kw) (nodes G)"
    by (rule filter_filter_absorb)
  then show ?thesis unfolding matched_nodes_def subgraph_def by (simp del: filter_filter)
qed

lemma neighbors_subgraph:
  assumes "m \<in> S" and "set (neighbors G m) \<subseteq> S"
  shows "neighbors (subgraph G S) m = neighbors G m"
proof -
  have "other_end m e = []" if "e \<in> set (edges G)" "\<not> edge_in S e" for e
  proof -
    obtain a b w where e: "e = (a, b, w)" by (cases e)
    show ?thesis
    proof (rule ccontr)
      assume "other_end m e \<noteq> []"
      then have "(a = m \<and> b \<in> set (other_end m e)) \<or> (b = m \<and> a \<in> set (other_end m e))"
        by (auto simp: e split: if_splits)
      moreover have "set (other_end m e) \<subseteq> set (neighbors G m)"
        using that(1) by (auto simp: neighbors_def)
      ultimately have "a \<in> S \<and> b \<in> S" using assms by auto
      with that(2) show False by (simp add: e)
    qed
  qed
  then have "concat (map (other_end m) (filter (edge_in S) (edges G))) = concat (map (other_end m) (edges G))"
    by (rule concat_map_filter_absorb)
  then show ?thesis unfolding neighbors_def subgraph_def by simp
qed

lemma sub_nodes_cong:
  "(\<And>m. m \<in> set ms \<Longrightarrow> neighbors G' m = neighbors G m) \<Longrightarrow> sub_nodes G' ms = sub_nodes G ms"
  unfolding sub_nodes_def fold_sub_nodes by simp

lemma sub_nodes_subgraph:
  assumes "S = sub_nodes G ms"
  shows "sub_nodes (subgraph G S) ms = S"
proof -
  have "neighbors (subgraph G S) m = neighbors G m" if "m \<in> set ms" for m
  proof (rule neighbors_subgraph)
    show "m \<in> S" using that by (simp add: assms sub_nodes_eq)
    show "set (neighbors G m) \<subseteq> S" using that by (auto simp: assms sub_nodes_eq set_neighbors)
  qed
  then have "sub_nodes (subgraph G S) ms = sub_nodes G ms" by (rule sub_nodes_cong)
  with assms show ?thesis by simp
qed

lemma subgraph_idem: "subgraph (subgraph G S) S = subgraph G S"
  by (simp add: subgraph_def)

lemma keyword_filter_idem:
  assumes "keyword_filter G kw = Inr G'"
  shows "keyword_filter G' kw = Inr G'"
proof (cases "kw = []")
  case True
  with assms show ?thesis by (simp add: keyword_filter_def)
next
  case False
  let ?ms = "matched_nodes G kw"
  let ?S = "sub_nodes G ?ms"
  from assms False have ms: "?ms \<noteq> []" and G': "G' = subgraph G ?S"
    by (auto simp: keyword_filter_def split: if_splits)
  have "set ?ms \<subseteq> ?S" by (auto simp: sub_nodes_eq)
  then have m': "matched_nodes G' kw = ?ms" unfolding G' by (rule matched_nodes_subgraph)
  have s': "sub_nodes G' ?ms = ?S" unfolding G' by (rule sub_nodes_subgraph) (rule refl)
  have "subgraph G' ?S = G'" unfolding G' by (rule subgraph_idem)
  with False ms show ?thesis by (simp add: keyword_filter_def m' s')
qed

lemma contains_iff_sublist: "contains kw s \<longleftrightarrow> sublist kw s"
  by (induction s) (auto simp: sublist_Cons_right)

lemma nodes_build_graph: "nodes (build_graph texts sim threshold) = enumerate 0 texts"
  by (simp add: build_graph_eq)

lemma matched_nodes_build_graph:
  "n \<in> set (matched_nodes (build_graph texts sim threshold) kw) \<longleftrightarrow>
     n < length texts \<and> contains kw (texts ! n)"
  by (auto simp: set_matched_nodes nodes_build_graph in_set_enumerate_eq)

lemma has_edge_subgraph:
  "has_edge (subgraph G S) u v \<longleftrightarrow> has_edge G u v \<and> u \<in> S \<and> v \<in> S"
  by (auto simp: has_edge_iff subgraph_def)

lemma edge_weight_subgraph:
  assumes "u \<in> S" "v \<in> S"
  shows "edge_weight (subgraph G S) u v = edge_weight G u v"
proof -
  have "edge_in S e" if "same_edge u v e" for e :: "nat \<times> nat \<times> 'a"
    using that assms by (cases e) auto
  then have "find (same_edge u v) (filter (edge_in S) (edges G)) = find (same_edge u v) (edges G)"
    by (intro find_filter_absorb)
  then show ?thesis by (simp add: edge_weight_def subgraph_def)
qed

lemma node_ids_subgraph:
  assumes "S \<subseteq> fst ` set (nodes G)"
  shows "fst ` set (nodes (subgraph G S)) = S"
proof -
  have "node_in S x \<longleftrightarrow> fst x \<in> S" for x :: "nat \<times> string" by (cases x) simp
  then have "fst ` set (nodes (subgraph G S)) = S \<inter> fst ` set (nodes G)"
    by (auto simp: subgraph_def)
  with assms show ?thesis by auto
qed

lemma sub_nodes_build_graph:
  "sub_nodes (build_graph texts sim threshold) (matched_nodes (build_graph texts sim threshold) kw)
     \<subseteq> fst ` set (nodes (build_graph texts sim threshold))"
proof
  let ?G = "build_graph texts sim threshold"
  fix v assume "v \<in> sub_nodes ?G (matched_nodes ?G kw)"
  then have "v < length texts"
    by (auto simp: sub_nodes_eq matched_nodes_build_graph has_edge_build_graph)
  then have "(v, texts ! v) \<in> set (nodes ?G)"
    by (simp add: nodes_build_graph in_set_enumerate_eq)
  then show "v \<in> fst ` set (nodes ?G)" by force
qed


section \<open>The example corpus, evaluated\<close>

lemma example_graph:
  "build_graph example_texts example_sim (1 / 5) =
     \<lparr>nodes = [(0, ''solar cell battery''), (1, ''battery storage system''), (2, ''unrelated robotics topic'')],
      edges = [(0, 1, 2243 / 10000)]\<rparr>"
  by code_simp

lemma example_matched_solar: "matched_nodes (build_graph example_texts example_sim (1 / 5)) ''solar'' = [0]"
  by code_simp

lemma example_matched_robotics: "matched_nodes (build_graph example_texts example_sim (1 / 5)) ''robotics'' = [2]"
  by code_simp

lemma example_filter_solar:
  "keyword_filter (build_graph example_texts example_sim (1 / 5)) ''solar'' =
     Inr \<lparr>nodes = [(0, ''solar cell battery''), (1, ''battery storage system'')], edges = [(0, 1, 2243 / 10000)]\<rparr>"
  by code_simp

lemma example_filter_robotics:
  "keyword_filter (build_graph example_texts example_sim (1 / 5)) ''robotics'' =
     Inr \<lparr>nodes = [(2, ''unrelated robotics topic'')], edges = []\<rparr>"
  by code_simp

section \<open>Keyword filter: the claims\<close>

text \<open>
  Claim C4. For a built graph and a non-empty keyword that occurs in the label of at least
  one node, the keyword filter returns a graph (it does not halt). Its nodes are exactly
  the closed neighbourhood \<open>K\<close>: the matched nodes and every node joined to one of them by
  an edge, whether or not that node's own label contains the keyword. Every kept node has
  the label it had; the edges of the result are exactly the edges of the built graph with
  both ends in \<open>K\<close>, each with the weight it had. A node is matched when the keyword is a
  contiguous piece of its text, compared character by character.
\<close>

theorem keyword_filter_neighbourhood:
  assumes "G = build_graph texts sim threshold"
    and "kw \<noteq> []" and "matched_nodes G kw \<noteq> []"
    and "K = set (matched_nodes G kw) \<union> {v. \<exists>m\<in>set (matched_nodes G kw). has_edge G m v}"
  shows "\<exists>G'. keyword_filter G kw = Inr G'
    \<and> fst ` set (nodes G') = K
    \<and> (\<forall>n t. (n, t) \<in> set (nodes G') \<longleftrightarrow> (n, t) \<in> set (nodes G) \<and> n \<in> K)
    \<and> (\<forall>u v w. (u, v, w) \<in> set (edges G') \<longleftrightarrow> (u, v, w) \<in> set (edges G) \<and> u \<in> K \<and> v \<in> K)
    \<and> (\<forall>u v. has_edge G' u v \<longleftrightarrow> has_edge G u v \<and> u \<in> K \<and> v \<in> K)
    \<and> (\<forall>u v. u \<in> K \<and> v \<in> K \<longrightarrow> edge_weight G' u v = edge_weight G u v)
    \<and> (\<forall>m v. m \<in> set (matched_nodes G kw) \<and> has_edge G m v \<longrightarrow> v \<in> fst ` set (nodes G'))
    \<and> (\<forall>n. n \<in> set (matched_nodes G kw) \<longleftrightarrow> n < length texts \<and> sublist kw (texts ! n))"
proof -
  let ?G' = "subgraph G K"
  have K: "K = sub_nodes G (matched_nodes G kw)" by (simp add: assms(4) sub_nodes_eq)
  have kf: "keyword_filter G kw = Inr ?G'" using assms(2,3) by (simp add: keyword_filter_def K)
  have "K \<subseteq> fst ` set (nodes G)" unfolding K assms(1) by (rule sub_nodes_build_graph)
  then have ids: "fst ` set (nodes ?G') = K" by (rule node_ids_subgraph)
  have n: "(n, t) \<in> set (nodes ?G') \<longleftrightarrow> (n, t) \<in> set (nodes G) \<and> n \<in> K" for n t
    by (auto simp: subgraph_def)
  have e: "(u, v, w) \<in> set (edges ?G') \<longleftrightarrow> (u, v, w) \<in> set (edges G) \<and> u \<in> K \<and> v \<in> K" for u v w
    by (auto simp: subgraph_def)
  have h: "has_edge ?G' u v \<longleftrightarrow> has_edge G u v \<and> u \<in> K \<and> v \<in> K" for u v
    by (rule has_edge_subgraph)
  have w: "edge_weight ?G' u v = edge_weight G u v" if "u \<in> K \<and> v \<in> K" for u v
    using that by (simp add: edge_weight_subgraph)
  have nb: "v \<in> fst ` set (nodes ?G')" if "m \<in> set (matched_nodes G kw) \<and> has_edge G m v" for m v
    unfolding ids using that by (auto simp: assms(4))
  have ma: "n \<in> set (matched_nodes G kw) \<longleftrightarrow> n < length texts \<and> sublist kw (texts ! n)" for n
    unfolding assms(1) by (simp add: matched_nodes_build_graph contains_iff_sublist)
  from kf ids n e h w nb ma show ?thesis by blast
qed

theorem keyword_filter_neighbourhood_witness:
  "''solar'' \<noteq> []
   \<and> matched_nodes (build_graph example_texts example_sim (1 / 5)) ''solar'' \<noteq> []
   \<and> (\<exists>G'. keyword_filter (build_graph example_texts example_sim (1 / 5)) ''solar'' = Inr G'
         \<and> fst ` set (nodes G') = {0, 1}
         \<and> has_edge G' 0 1 \<and> edge_weight G' 0 1 = Some (2243 / 10000))"
proof -
  let ?G = "build_graph example_texts example_sim (1 / 5)"
  have e: "has_edge ?G 0 v \<longleftrightarrow> v = 1" for v
    unfolding example_graph by (auto simp: has_edge_def)
  have w: "edge_weight ?G 0 1 = Some (2243 / 10000)"
    unfolding example_graph by (simp add: edge_weight_def)
  have "{v. \<exists>m\<in>set (matched_nodes ?G ''solar''). has_edge ?G m v} = {1}"
    unfolding example_matched_solar by (simp add: e)
  then have K: "{0, 1} = set (matched_nodes ?G ''solar'') \<union> {v. \<exists>m\<in>set (matched_nodes ?G ''solar''). has_edge ?G m v}"
    unfolding example_matched_solar by auto
  have h2: "''solar'' \<noteq> []" by simp
  have h3: "matched_nodes ?G ''solar'' \<noteq> []" by (simp add: example_matched_solar)
  from keyword_filter_neighbourhood [OF refl h2 h3 K] obtain G' where G':
    "keyword_filter ?G ''solar'' = Inr G'" "fst ` set (nodes G') = {0, 1}"
    "\<forall>u v. has_edge G' u v \<longleftrightarrow> has_edge ?G u v \<and> u \<in> {0, 1} \<and> v \<in> {0, 1}"
    "\<forall>u v. u \<in> {0, 1} \<and> v \<in> {0, 1} \<longrightarrow> edge_weight G' u v = edge_weight ?G u v"
    by (elim exE conjE) (rule that, assumption+)
  have i: "(0::nat) \<in> {0, 1}" "(1::nat) \<in> {0, 1}" by simp_all
  have "has_edge G' 0 1" using G'(3) [rule_format, of 0 1] e [of 1] i by simp
  moreover have "edge_weight G' 0 1 = Some (2243 / 10000)" using G'(4) [rule_format, of 0 1] w i by simp
  ultimately have "keyword_filter ?G ''solar'' = Inr G' \<and> fst ` set (nodes G') = {0, 1}
      \<and> has_edge G' 0 1 \<and> edge_weight G' 0 1 = Some (2243 / 10000)"
    using G'(1,2) by (intro conjI)
  then have "\<exists>G'. keyword_filter ?G ''solar'' = Inr G' \<and> fst ` set (nodes G') = {0, 1}
      \<and> has_edge G' 0 1 \<and> edge_weight G' 0 1 = Some (2243 / 10000)" ..
  with h2 h3 show ?thesis by (intro conjI)
qed

text \<open>
  Claim C5. The keyword filter is idempotent: when the keyword matches at least one node
  and the filter returns \<open>G'\<close>, filtering \<open>G'\<close> with the same keyword returns a graph
  with the same labelled nodes and the same weighted edges.
\<close>

theorem keyword_filter_idempotent:
  assumes "matched_nodes G kw \<noteq> []" and "keyword_filter G kw = Inr G'"
  shows "\<exists>G''. keyword_filter G' kw = Inr G''
    \<and> set (nodes G'') = set (nodes G') \<and> set (edges G'') = set (edges G')"
  using keyword_filter_idem [OF assms(2)] by simp

theorem keyword_filter_idempotent_witness:
  "matched_nodes (build_graph example_texts example_sim (1 / 5)) ''solar'' \<noteq> []
   \<and> keyword_filter (build_graph example_texts example_sim (1 / 5)) ''solar''
       = Inr \<lparr>nodes = [(0, ''solar cell battery''), (1, ''battery storage system'')], edges = [(0, 1, 2243 / 10000)]\<rparr>
   \<and> (\<exists>G''. keyword_filter \<lparr>nodes = [(0, ''solar cell battery''), (1, ''battery storage system'')], edges = [(0, 1, 2243 / 10000 :: real)]\<rparr> ''solar'' = Inr G''
         \<and> set (nodes G'') = {(0, ''solar cell battery''), (1, ''battery storage system'')}
         \<and> set (edges G'') = {(0, 1, 2243 / 10000)})"
proof -
  have h1: "matched_nodes (build_graph example_texts example_sim (1 / 5)) ''solar'' \<noteq> []"
    by (simp add: example_matched_solar)
  from keyword_filter_idempotent [OF h1 example_filter_solar] h1 example_filter_solar
  show ?thesis by simp
qed

section \<open>Ranked pairs\<close>
















lemma table_row_eq: "table_row texts round3 = (\<lambda>(i, j, s). (texts ! i, texts ! j, round3 s))"
  by (auto simp: fun_eq_iff)








section \<open>Halting and the displayed results\<close>

lemma pairs_are_edges: "pairs texts sim threshold = edges (build_graph texts sim threshold)"
  by (simp add: pairs_eq build_graph_eq)

lemma displayed_table_run:
  assumes "displayed_table (run analyzer sim round3 texts threshold kw) = Some T"
  shows "T = top_df texts sim round3 threshold"
  using assms by (auto simp: run_def graph_stage_def Let_def split: if_splits sum.splits)

lemma run_reaches_filter:
  assumes "\<not> fit_transform_raises analyzer texts"
    and "0 < number_of_nodes (build_graph texts sim threshold)"
    and "0 < number_of_edges (build_graph texts sim threshold)"
  shows "run analyzer sim round3 texts threshold kw =
     (case keyword_filter (build_graph texts sim threshold) kw of
        Inl e \<Rightarrow> Inl e
      | Inr G' \<Rightarrow> Inr (G', top_df texts sim round3 threshold))"
  using assms by (simp add: run_def graph_stage_def Let_def)

lemma run_halts_before_filter:
  assumes "fit_transform_raises analyzer texts
    \<or> number_of_nodes (build_graph texts sim threshold) = 0
    \<or> number_of_edges (build_graph texts sim threshold) = 0"
  shows "displayed_table (run analyzer sim round3 texts threshold kw) = None"
    and "displayed_graph (run analyzer sim round3 texts threshold kw) = None"
  using assms by (auto simp: run_def graph_stage_def Let_def)

lemma example_run_all:
  "run example_analyzer example_sim round3_half_even example_texts (1 / 5) '''' =
     Inr (\<lparr>nodes = [(0, ''solar cell battery''), (1, ''battery storage system''), (2, ''unrelated robotics topic'')],
           edges = [(0, 1, 2243 / 10000)]\<rparr>,
          [(''solar cell battery'', ''battery storage system'', 224 / 1000)])"
  by code_simp

lemma example_run_robotics:
  "run example_analyzer example_sim round3_half_even example_texts (1 / 5) ''robotics'' =
     Inr (\<lparr>nodes = [(2, ''unrelated robotics topic'')], edges = []\<rparr>,
          [(''solar cell battery'', ''battery storage system'', 224 / 1000)])"
  by code_simp

lemma example_run_solar:
  "run example_analyzer example_sim round3_half_even example_texts (1 / 5) ''solar'' =
     Inr (\<lparr>nodes = [(0, ''solar cell battery''), (1, ''battery storage system'')],
           edges = [(0, 1, 2243 / 10000)]\<rparr>,
          [(''solar cell battery'', ''battery storage system'', 224 / 1000)])"
  by code_simp

lemma example_run_quantum:
  "run example_analyzer example_sim round3_half_even example_texts (1 / 5) ''quantum'' = Inl NoMatchError"
  by code_simp

lemma example_reaches_filter:
  "\<not> fit_transform_raises example_analyzer example_texts"
  "0 < number_of_nodes (build_graph example_texts example_sim (1 / 5))"
  "0 < number_of_edges (build_graph example_texts example_sim (1 / 5))"
  by code_simp+

lemma filter_enumerate_one:
  "filter (node_in {n}) (enumerate k xs) =
     (if k \<le> n \<and> n < k + length xs then [(n, xs ! (n - k))] else [])"
proof (induction xs arbitrary: k)
  case Nil
  then show ?case by simp
next
  case (Cons x xs)
  show ?case
  proof (cases "k = n")
    case True
    then show ?thesis by (simp add: Cons.IH)
  next
    case False
    then show ?thesis by (auto simp: Cons.IH Suc_diff_le)
  qed
qed

lemma subgraph_single_node:
  assumes "n < length texts"
  shows "subgraph (build_graph texts sim threshold) {n} = \<lparr>nodes = [(n, texts ! n)], edges = []\<rparr>"
proof -
  have "\<not> edge_in {n} e" if "e \<in> set (all_pairs (length texts) sim threshold)" for e
  proof -
    obtain a b w where e: "e = (a, b, w)" by (cases e)
    with that have "a < b" by (simp add: set_all_pairs)
    then show ?thesis by (simp add: e)
  qed
  then have "filter (edge_in {n}) (all_pairs (length texts) sim threshold) = []"
    by (simp add: filter_empty_conv)
  with assms show ?thesis by (simp add: subgraph_def build_graph_eq filter_enumerate_one)
qed

text \<open>
  Claim C6. The ranked table is computed from the full, unfiltered candidate set, the
  edges of the unfiltered graph: for every corpus, matrix and threshold there is one table
  \<open>T\<close>, and whatever the keyword, a run that shows a ranked table shows \<open>T\<close>. When the
  run reaches the keyword filter, the empty keyword shows the unfiltered graph with \<open>T\<close>;
  a keyword that occurs in some label shows the narrowed graph with the same \<open>T\<close>; a
  keyword that occurs in no label halts the run with \<open>NoMatchError\<close>, which is terminal, so
  that run shows no table at all. When the run halts before the filter it shows no table
  for any keyword.
\<close>

theorem ranked_table_ignores_keyword:
  assumes "G = build_graph texts sim threshold"
    and "T = top_df texts sim round3 threshold"
  shows "(\<forall>kw T'. displayed_table (run analyzer sim round3 texts threshold kw) = Some T' \<longrightarrow> T' = T)
    \<and> T = map (table_row texts round3) (take top_n (sorted_reverse score (edges G)))
    \<and> (\<not> fit_transform_raises analyzer texts \<and> 0 < number_of_nodes G \<and> 0 < number_of_edges G \<longrightarrow>
         (\<forall>kw. (kw = [] \<longrightarrow> run analyzer sim round3 texts threshold kw = Inr (G, T))
            \<and> (kw \<noteq> [] \<and> matched_nodes G kw \<noteq> [] \<longrightarrow>
                 run analyzer sim round3 texts threshold kw =
                   Inr (subgraph G (sub_nodes G (matched_nodes G kw)), T))
            \<and> (kw \<noteq> [] \<and> matched_nodes G kw = [] \<longrightarrow>
                 run analyzer sim round3 texts threshold kw = Inl NoMatchError)))
    \<and> (fit_transform_raises analyzer texts \<or> number_of_nodes G = 0 \<or> number_of_edges G = 0 \<longrightarrow>
         (\<forall>kw. displayed_table (run analyzer sim round3 texts threshold kw) = None))"
proof (intro conjI allI impI)
  show "T' = T" if "displayed_table (run analyzer sim round3 texts threshold kw) = Some T'" for kw T'
    using that unfolding assms by (rule displayed_table_run)
  show "T = map (table_row texts round3) (take top_n (sorted_reverse score (edges G)))"
    unfolding assms by (simp add: top_df_def top_pairs_def pairs_are_edges)
next
  fix kw
  assume r: "\<not> fit_transform_raises analyzer texts \<and> 0 < number_of_nodes G \<and> 0 < number_of_edges G"
  then have run: "run analyzer sim round3 texts threshold kw =
     (case keyword_filter G kw of Inl e \<Rightarrow> Inl e | Inr G' \<Rightarrow> Inr (G', T))"
    unfolding assms by (intro run_reaches_filter) simp_all
  show "run analyzer sim round3 texts threshold kw = Inr (G, T)" if "kw = []"
    unfolding run using that by (simp add: keyword_filter_def)
  show "run analyzer sim round3 texts threshold kw =
      Inr (subgraph G (sub_nodes G (matched_nodes G kw)), T)" if "kw \<noteq> [] \<and> matched_nodes G kw \<noteq> []"
    unfolding run using that by (simp add: keyword_filter_def)
  show "run analyzer sim round3 texts threshold kw = Inl NoMatchError"
    if "kw \<noteq> [] \<and> matched_nodes G kw = []"
    unfolding run using that by (simp add: keyword_filter_def)
next
  fix kw
  assume "fit_transform_raises analyzer texts \<or> number_of_nodes G = 0 \<or> number_of_edges G = 0"
  then show "displayed_table (run analyzer sim round3 texts threshold kw) = None"
    unfolding assms by (rule run_halts_before_filter)
qed

theorem ranked_table_ignores_keyword_witness:
  "\<not> fit_transform_raises example_analyzer example_texts
   \<and> 0 < number_of_nodes (build_graph example_texts example_sim (1 / 5))
   \<and> 0 < number_of_edges (build_graph example_texts example_sim (1 / 5))
   \<and> run example_analyzer example_sim round3_half_even example_texts (1 / 5) '''' =
       Inr (build_graph example_texts example_sim (1 / 5),
            top_df example_texts example_sim round3_half_even (1 / 5))
   \<and> top_df example_texts example_sim round3_half_even (1 / 5) =
       [(''solar cell battery'', ''battery storage system'', 224 / 1000)]
   \<and> run example_analyzer example_sim round3_half_even example_texts (1 / 5) ''robotics'' =
       Inr (\<lparr>nodes = [(2, ''unrelated robotics topic'')], edges = []\<rparr>,
            [(''solar cell battery'', ''battery storage system'', 224 / 1000)])
   \<and> run example_analyzer example_sim round3_half_even example_texts (1 / 5) ''solar'' =
       Inr (\<lparr>nodes = [(0, ''solar cell battery''), (1, ''battery storage system'')],
             edges = [(0, 1, 2243 / 10000)]\<rparr>,
            [(''solar cell battery'', ''battery storage system'', 224 / 1000)])
   \<and> matched_nodes (build_graph example_texts example_sim (1 / 5)) ''quantum'' = []
   \<and> run example_analyzer example_sim round3_half_even example_texts (1 / 5) ''quantum'' = Inl NoMatchError"
proof -
  note t = ranked_table_ignores_keyword [OF refl refl, of example_analyzer example_sim round3_half_even example_texts "1 / 5"]
  note r = example_reaches_filter
  from t r have a: "run example_analyzer example_sim round3_half_even example_texts (1 / 5) '''' =
       Inr (build_graph example_texts example_sim (1 / 5),
            top_df example_texts example_sim round3_half_even (1 / 5))"
    by blast
  from t have b: "\<forall>kw T'. displayed_table (run example_analyzer example_sim round3_half_even example_texts (1 / 5) kw) = Some T'
      \<longrightarrow> T' = top_df example_texts example_sim round3_half_even (1 / 5)"
    by (elim conjE)
  have "displayed_table (run example_analyzer example_sim round3_half_even example_texts (1 / 5) ''robotics'')
      = Some [(''solar cell battery'', ''battery storage system'', 224 / 1000)]"
    by (simp add: example_run_robotics)
  from b [rule_format, OF this, symmetric] have c: "top_df example_texts example_sim round3_half_even (1 / 5) =
       [(''solar cell battery'', ''battery storage system'', 224 / 1000)]" .
  have m: "matched_nodes (build_graph example_texts example_sim (1 / 5)) ''quantum'' = []"
    by code_simp
  have q: "''quantum'' \<noteq> []" by simp
  from t r m q have d: "run example_analyzer example_sim round3_half_even example_texts (1 / 5) ''quantum'' = Inl NoMatchError"
    by blast
  from r a c example_run_robotics example_run_solar m d show ?thesis by (intro conjI)
qed



text \<open>
  Claim C8. After graph construction (lines 51 to 56): when the graph has no node the run
  halts with \<open>EmptyCorpusError\<close>; when it has a node and no edge the run halts with
  \<open>NoEdgesError\<close>; the two outcomes differ; and in both cases the run displays neither a
  graph nor a table. The last part states the second case for the run from the texts on,
  where the vectoriser has not raised.
\<close>

theorem graph_checks_halt:
  assumes "G = build_graph texts sim threshold"
    and "r = graph_stage sim round3 texts threshold search_keyword"
  shows "(number_of_nodes G = 0 \<longrightarrow> r = Inl EmptyCorpusError)
    \<and> (0 < number_of_nodes G \<and> number_of_edges G = 0 \<longrightarrow> r = Inl NoEdgesError)
    \<and> EmptyCorpusError \<noteq> NoEdgesError
    \<and> (number_of_nodes G = 0 \<or> number_of_edges G = 0 \<longrightarrow>
          displayed_graph r = None \<and> displayed_table r = None)
    \<and> (0 < number_of_nodes G \<and> number_of_edges G = 0 \<and> \<not> fit_transform_raises analyzer texts \<longrightarrow>
          run analyzer sim round3 texts threshold search_keyword = Inl NoEdgesError)"
  unfolding assms by (auto simp: graph_stage_def run_def Let_def)

theorem graph_checks_halt_witness:
  "number_of_nodes (build_graph [] example_sim (3 / 10)) = 0
   \<and> graph_stage example_sim round3_half_even [] (3 / 10) '''' = Inl EmptyCorpusError
   \<and> 0 < number_of_nodes (build_graph example_texts example_sim (7 / 10))
   \<and> number_of_edges (build_graph example_texts example_sim (7 / 10)) = 0
   \<and> \<not> fit_transform_raises example_analyzer example_texts
   \<and> graph_stage example_sim round3_half_even example_texts (7 / 10) '''' = Inl NoEdgesError
   \<and> run example_analyzer example_sim round3_half_even example_texts (7 / 10) '''' = Inl NoEdgesError
   \<and> displayed_graph (graph_stage example_sim round3_half_even example_texts (7 / 10) '''') = None"
proof -
  have a: "number_of_nodes (build_graph [] example_sim (3 / 10)) = 0" by code_simp
  have b: "0 < number_of_nodes (build_graph example_texts example_sim (7 / 10))" by code_simp
  have c: "number_of_edges (build_graph example_texts example_sim (7 / 10)) = 0" by code_simp
  have d: "\<not> fit_transform_raises example_analyzer example_texts" by code_simp
  note t1 = graph_checks_halt [OF refl refl, of "[]" example_sim "3 / 10" round3_half_even "''''" example_analyzer]
  note t2 = graph_checks_halt [OF refl refl, of example_texts example_sim "7 / 10" round3_half_even "''''" example_analyzer]
  from t1 a have e: "graph_stage example_sim round3_half_even [] (3 / 10) '''' = Inl EmptyCorpusError"
    by blast
  from t2 b c have f: "graph_stage example_sim round3_half_even example_texts (7 / 10) '''' = Inl NoEdgesError"
    by blast
  from t2 b c d have g: "run example_analyzer example_sim round3_half_even example_texts (7 / 10) '''' = Inl NoEdgesError"
    by blast
  from t2 c have h: "displayed_graph (graph_stage example_sim round3_half_even example_texts (7 / 10) '''') = None"
    by blast
  from a e b c d f g h show ?thesis by (intro conjI)
qed

text \<open>
  Claim C9, as amended. For a corpus of zero rows the run halts at the vectoriser (line 38)
  with \<open>VectorizationError\<close>, whatever the analyzer, the matrix, the threshold and the
  keyword: no text yields a token, so the vocabulary is empty. Graph construction is not
  reached. The zero-node check of lines 51 to 53 signals \<open>EmptyCorpusError\<close> for an empty
  corpus only when the stage after the similarity matrix is entered on its own.
\<close>

theorem empty_corpus_halts_at_vectorizer:
  "run analyzer sim round3 [] threshold search_keyword = Inl VectorizationError
   \<and> graph_stage sim round3 [] threshold search_keyword = Inl EmptyCorpusError"
  by (simp add: run_def fit_transform_raises_def vocabulary_def graph_stage_def
      build_graph_eq number_of_nodes_def)

text \<open>
  Claim C9, as stated, fails: the run on the empty corpus does not end with
  \<open>EmptyCorpusError\<close>.
\<close>

theorem empty_corpus_counterexample:
  "run example_analyzer example_sim round3_half_even [] (3 / 10) '''' = Inl VectorizationError
   \<and> run example_analyzer example_sim round3_half_even [] (3 / 10) '''' \<noteq> Inl EmptyCorpusError"
  by code_simp

text \<open>
  Claim C10. The zero-edge check runs on the unfiltered graph only. Whenever the
  vectoriser does not raise, the built graph has an edge, and a non-empty keyword matches
  exactly one node, which has no neighbour, the run shows the graph of that single node
  with no edge, together with the table, and does not halt with \<open>NoEdgesError\<close>. The
  example corpus at threshold \<open>0.2\<close> with the keyword \<open>robotics\<close> is such a run.
\<close>

theorem isolated_match_shows_graph_without_edges:
  assumes "G = build_graph texts sim threshold"
    and "\<not> fit_transform_raises analyzer texts"
    and "0 < number_of_edges G"
    and "kw \<noteq> []"
    and "matched_nodes G kw = [n]"
    and "neighbors G n = []"
  shows "run analyzer sim round3 texts threshold kw =
       Inr (\<lparr>nodes = [(n, texts ! n)], edges = []\<rparr>, top_df texts sim round3 threshold)
    \<and> displayed_graph (run analyzer sim round3 texts threshold kw) =
       Some \<lparr>nodes = [(n, texts ! n)], edges = []\<rparr>
    \<and> number_of_nodes \<lparr>nodes = [(n, texts ! n)], edges = ([] :: (nat \<times> nat \<times> 'w) list)\<rparr> = 1
    \<and> number_of_edges \<lparr>nodes = [(n, texts ! n)], edges = ([] :: (nat \<times> nat \<times> 'w) list)\<rparr> = 0
    \<and> run analyzer sim round3 texts threshold kw \<noteq> Inl NoEdgesError"
proof -
  have "n \<in> set (matched_nodes G kw)" by (simp add: assms(5))
  then have n: "n < length texts" unfolding assms(1) by (simp add: matched_nodes_build_graph)
  then have nodes: "0 < number_of_nodes G"
    unfolding assms(1) by (auto simp: number_of_nodes_def build_graph_eq)
  have S: "sub_nodes G (matched_nodes G kw) = {n}"
    by (auto simp: sub_nodes_eq assms(5) assms(6) set_neighbors [symmetric])
  have "keyword_filter G kw = Inr (subgraph G {n})"
    using assms(4) by (simp add: keyword_filter_def S) (simp add: assms(5))
  then have kf: "keyword_filter G kw = Inr \<lparr>nodes = [(n, texts ! n)], edges = []\<rparr>"
    unfolding assms(1) by (simp add: subgraph_single_node [OF n])
  have "run analyzer sim round3 texts threshold kw =
     (case keyword_filter G kw of Inl e \<Rightarrow> Inl e | Inr G' \<Rightarrow> Inr (G', top_df texts sim round3 threshold))"
    using assms(2,3) nodes unfolding assms(1) by (intro run_reaches_filter) simp_all
  then have "run analyzer sim round3 texts threshold kw =
       Inr (\<lparr>nodes = [(n, texts ! n)], edges = []\<rparr>, top_df texts sim round3 threshold)"
    by (simp add: kf)
  then show ?thesis by (simp add: number_of_nodes_def number_of_edges_def)
qed

theorem isolated_match_shows_graph_without_edges_witness:
  "\<not> fit_transform_raises example_analyzer example_texts
   \<and> number_of_edges (build_graph example_texts example_sim (1 / 5)) = 1
   \<and> ''robotics'' \<noteq> []
   \<and> matched_nodes (build_graph example_texts example_sim (1 / 5)) ''robotics'' = [2]
   \<and> neighbors (build_graph example_texts example_sim (1 / 5)) 2 = []
   \<and> run example_analyzer example_sim round3_half_even example_texts (1 / 5) ''robotics'' =
       Inr (\<lparr>nodes = [(2, ''unrelated robotics topic'')], edges = []\<rparr>,
            [(''solar cell battery'', ''battery storage system'', 224 / 1000)])
   \<and> run example_analyzer example_sim round3_half_even example_texts (1 / 5) ''robotics'' \<noteq> Inl NoEdgesError"
proof -
  have a: "\<not> fit_transform_raises example_analyzer example_texts" by code_simp
  have b: "number_of_edges (build_graph example_texts example_sim (1 / 5)) = 1" by code_simp
  then have b': "0 < number_of_edges (build_graph example_texts example_sim (1 / 5))" by simp
  have c: "''robotics'' \<noteq> []" by simp
  have d: "matched_nodes (build_graph example_texts example_sim (1 / 5)) ''robotics'' = [2]" by code_simp
  have e: "neighbors (build_graph example_texts example_sim (1 / 5)) 2 = []" by code_simp
  have f: "example_texts ! 2 = ''unrelated robotics topic''" by code_simp
  have g: "top_df example_texts example_sim round3_half_even (1 / 5) =
       [(''solar cell battery'', ''battery storage system'', 224 / 1000)]" by code_simp
  note t = isolated_match_shows_graph_without_edges [OF refl a b' c d e, of round3_half_even]
  from t have h: "run example_analyzer example_sim round3_half_even example_texts (1 / 5) ''robotics'' =
       Inr (\<lparr>nodes = [(2, ''unrelated robotics topic'')], edges = []\<rparr>,
            [(''solar cell battery'', ''battery storage system'', 224 / 1000)])"
    unfolding f g by (elim conjE)
  from t have i: "run example_analyzer example_sim round3_half_even example_texts (1 / 5) ''robotics'' \<noteq> Inl NoEdgesError"
    by (elim conjE)
  from a b c d e h i show ?thesis by (intro conjI)
qed

section \<open>The similarity matrix of the specification\<close>

lemma dot_commute: "dot u v = dot v u"
proof -
  have "map (\<lambda>(x, y). x * y) (zip u v) = map (\<lambda>(x, y). x * y) (zip v u)"
    by (induction u arbitrary: v) (auto simp: zip_Cons1 mult.commute split: list.split)
  then show ?thesis by (simp add: dot_def)
qed

lemma dot_nonneg:
  assumes "\<And>x. x \<in> set u \<Longrightarrow> 0 \<le> x" and "\<And>y. y \<in> set v \<Longrightarrow> 0 \<le> y"
  shows "0 \<le> dot u v"
proof -
  have "0 \<le> z" if "z \<in> set (map (\<lambda>(x, y). x * y) (zip u v))" for z
  proof -
    from that obtain x y where xy: "(x, y) \<in> set (zip u v)" and z: "z = x * y" by auto
    from xy have "x \<in> set u" "y \<in> set v" by (auto dest: set_zip_leftD set_zip_rightD)
    then have "0 \<le> x" "0 \<le> y" using assms by auto
    then show ?thesis unfolding z by (rule mult_nonneg_nonneg)
  qed
  then show ?thesis unfolding dot_def by (rule sum_list_nonneg)
qed

lemma dot_le_squares:
  "dot u v \<le> (sum_list (map (\<lambda>x. x * x) u) + sum_list (map (\<lambda>x. x * x) v)) / 2"
proof (induction u arbitrary: v)
  case Nil
  have "0 \<le> sum_list (map (\<lambda>x. x * x) v)" by (intro sum_list_nonneg) auto
  then show ?case by (simp add: dot_def)
next
  case (Cons x u)
  show ?case
  proof (cases v)
    case Nil
    have "0 \<le> sum_list (map (\<lambda>x. x * x) (x # u))" by (intro sum_list_nonneg) auto
    then show ?thesis by (simp add: dot_def Nil)
  next
    case (Cons y w)
    have "0 \<le> (x - y) * (x - y)" by simp
    then have "x * y \<le> (x * x + y * y) / 2" by (simp add: algebra_simps)
    moreover have "dot (x # u) (y # w) = x * y + dot u w" by (simp add: dot_def)
    ultimately show ?thesis using Cons.IH [of w] by (simp add: Cons)
  qed
qed

lemma sum_list_squares_divide:
  "sum_list (map (\<lambda>x. x * x) (map (\<lambda>x. x / c) v)) = sum_list (map (\<lambda>x. x * x) v) / (c * c)"
  for c :: real
  by (induction v) (simp_all add: add_divide_distrib)

lemma l2_normalize_squares: "sum_list (map (\<lambda>x. x * x) (l2_normalize v)) \<le> 1"
proof -
  let ?s = "sum_list (map (\<lambda>x. x * x) v)"
  have s: "0 \<le> ?s" by (intro sum_list_nonneg) auto
  show ?thesis
  proof (cases "sqrt ?s = 0")
    case True
    then have "?s = 0" by simp
    with True show ?thesis by (simp add: l2_normalize_def)
  next
    case False
    have "sqrt ?s * sqrt ?s = ?s" using s by simp
    then have "sum_list (map (\<lambda>x. x * x) (map (\<lambda>x. x / sqrt ?s) v)) = ?s / ?s"
      by (simp only: sum_list_squares_divide)
    also have "\<dots> \<le> 1" by simp
    finally show ?thesis using False by (simp add: l2_normalize_def Let_def)
  qed
qed

lemma idf_pos:
  assumes "df \<le> N"
  shows "0 < idf N df"
proof -
  have "1 \<le> (1 + real N) / (1 + real df)" using assms by (simp add: field_simps)
  then have "0 \<le> ln ((1 + real N) / (1 + real df))" by (rule ln_ge_zero)
  then show ?thesis unfolding idf_def by linarith
qed

lemma doc_freq_le: "doc_freq docs t \<le> length docs"
  by (simp add: doc_freq_def)

lemma tfidf_row_nonneg: "x \<in> set (tfidf_row docs vocab d) \<Longrightarrow> 0 \<le> x"
proof -
  assume "x \<in> set (tfidf_row docs vocab d)"
  then obtain t where "x = real (count_list d t) * idf (length docs) (doc_freq docs t)"
    by (auto simp: tfidf_row_def)
  moreover have "0 < idf (length docs) (doc_freq docs t)" by (rule idf_pos) (rule doc_freq_le)
  ultimately show ?thesis by simp
qed

lemma l2_normalize_nonneg:
  assumes "\<And>x. x \<in> set v \<Longrightarrow> 0 \<le> x" and "y \<in> set (l2_normalize v)"
  shows "0 \<le> y"
proof (cases "sqrt (sum_list (map (\<lambda>x. x * x) v)) = 0")
  case True
  with assms show ?thesis by (simp add: l2_normalize_def)
next
  case False
  with assms(2) obtain x where "x \<in> set v" "y = x / sqrt (sum_list (map (\<lambda>x. x * x) v))"
    by (auto simp: l2_normalize_def Let_def)
  moreover have "0 \<le> sqrt (sum_list (map (\<lambda>x. x * x) v))"
    by (intro real_sqrt_ge_zero sum_list_nonneg) auto
  ultimately show ?thesis using assms(1) by simp
qed

lemma feature_matrix_length: "length (feature_matrix analyzer texts) = length texts"
  by (simp add: feature_matrix_def Let_def)

lemma feature_matrix_row:
  assumes "i < length texts"
  shows "\<exists>v. feature_matrix analyzer texts ! i = l2_normalize v \<and> (\<forall>x\<in>set v. 0 \<le> x)"
proof -
  let ?docs = "map analyzer texts"
  let ?v = "tfidf_row ?docs (vocabulary analyzer texts) (?docs ! i)"
  have "feature_matrix analyzer texts ! i = l2_normalize ?v"
    using assms by (simp add: feature_matrix_def Let_def)
  moreover have "\<forall>x\<in>set ?v. 0 \<le> x" using tfidf_row_nonneg by blast
  ultimately show ?thesis by blast
qed

text \<open>
  Claim C3. For every corpus and every analyzer, the similarity matrix of sections 4.1 and
  4.2 of the specification (dot products of the L2-normalised tf-idf rows, in exact
  arithmetic) is symmetric, and every entry between two texts of the corpus lies in the
  closed interval from 0 to 1.
\<close>

theorem similarity_matrix_symmetric_unit_range:
  assumes "i < length texts" and "j < length texts"
  shows "similarity_matrix analyzer texts i j = similarity_matrix analyzer texts j i
    \<and> 0 \<le> similarity_matrix analyzer texts i j
    \<and> similarity_matrix analyzer texts i j \<le> 1"
proof -
  from feature_matrix_row [OF assms(1)] obtain u where
    u: "feature_matrix analyzer texts ! i = l2_normalize u" "\<forall>x\<in>set u. 0 \<le> x" by blast
  from feature_matrix_row [OF assms(2)] obtain v where
    v: "feature_matrix analyzer texts ! j = l2_normalize v" "\<forall>x\<in>set v. 0 \<le> x" by blast
  have sym: "similarity_matrix analyzer texts i j = similarity_matrix analyzer texts j i"
    unfolding similarity_matrix_def by (rule dot_commute)
  have lo: "0 \<le> dot (l2_normalize u) (l2_normalize v)"
    using u(2) v(2) by (intro dot_nonneg) (auto intro: l2_normalize_nonneg)
  have "dot (l2_normalize u) (l2_normalize v) \<le>
      (sum_list (map (\<lambda>x. x * x) (l2_normalize u)) + sum_list (map (\<lambda>x. x * x) (l2_normalize v))) / 2"
    by (rule dot_le_squares)
  also have "\<dots> \<le> (1 + 1) / 2"
    using l2_normalize_squares [of u] l2_normalize_squares [of v] by simp
  finally have hi: "dot (l2_normalize u) (l2_normalize v) \<le> 1" by simp
  from sym lo hi show ?thesis by (simp add: similarity_matrix_def u(1) v(1))
qed

theorem similarity_matrix_symmetric_unit_range_witness:
  "0 < length example_texts \<and> 1 < length example_texts
   \<and> similarity_matrix example_analyzer example_texts 0 1 = similarity_matrix example_analyzer example_texts 1 0
   \<and> 0 \<le> similarity_matrix example_analyzer example_texts 0 1
   \<and> similarity_matrix example_analyzer example_texts 0 1 \<le> 1"
proof -
  have a: "0 < length example_texts" "1 < length example_texts" by (simp_all add: example_texts_def)
  from similarity_matrix_symmetric_unit_range [OF a, of example_analyzer] a show ?thesis by simp
qed

end
